theory Spec2Isabelle
  imports Main "HOL-Library.Word"
begin

section \<open>The extraction script \<^verbatim>\<open>Reconstruct/main.py\<close>\<close>

text \<open>
  The whole program is one module-level loop:
  \<^verbatim>\<open>
  cap = pyshark.FileCapture('challenge.pcap', include_raw=True, use_json=True)
  with open("out.raw", "wb") as f:
      for packet in cap:
          usb = packet.usb
          if usb.transfer_type == "0x00" and usb.src == "host":
              header_len = int(usb.usbpcap_header_len)
              data = packet.get_raw_packet()[header_len:]
              print(len(data))
              f.write(data)
  \<close>
  The capture is the finite sequence of packets the library yields. Opening and parsing
  the capture file and failures of the operating system on the output file are outside
  the model; every exception the loop body itself can raise is a value of \<open>error\<close>.
  The library is pyshark: a packet looks a layer up by name and a layer in JSON mode
  looks a field up by name, both raising \<^verbatim>\<open>AttributeError\<close> when there is none, and a
  field value is a string.
\<close>

subsection \<open>Data model\<close>

type_synonym byte = "8 word"

text \<open>
  The USB layer of a packet in JSON mode: every field is a string, looked up by name. A
  field the layer does not have is \<open>None\<close>; reading it raises \<^verbatim>\<open>AttributeError\<close>.
\<close>

record usb_layer =
  transfer_type :: "string option"
  src :: "string option"
  usbpcap_header_len :: "string option"

text \<open>
  A packet: \<open>usb\<close> is the layer that \<^verbatim>\<open>packet.usb\<close> finds (\<open>None\<close> when the packet has no
  layer of that name, where the attribute access raises \<^verbatim>\<open>AttributeError\<close>), and
  \<open>get_raw_packet\<close> is the raw frame, present on every packet since the capture is opened
  with \<^verbatim>\<open>include_raw=True\<close>.
\<close>

record packet =
  usb :: "usb_layer option"
  get_raw_packet :: "byte list"

datatype error = AttributeError | ValueError

text \<open>
  What the loop writes to: the bytes written through the handle \<^verbatim>\<open>f\<close> since it was
  opened, and the numbers printed on standard output.
\<close>

record sinks =
  written :: "byte list"
  printed :: "nat list"

text \<open>The files by path, and standard output.\<close>

record world =
  files :: "string \<rightharpoonup> byte list"
  stdout :: "nat list"

subsection \<open>The builtins the loop body calls\<close>

text \<open>
  \<^verbatim>\<open>int(s)\<close> on a string, base 10, for ASCII input: white space around the literal is
  dropped, one sign may come first, then decimal digits with single underscores between
  digits. Anything else raises \<^verbatim>\<open>ValueError\<close> (\<open>None\<close>).
\<close>

definition is_space :: "char \<Rightarrow> bool" where
  "is_space c = (c \<in> set [CHR '' '', CHR 0x09, CHR 0x0A, CHR 0x0B, CHR 0x0C, CHR 0x0D])"

definition strip :: "string \<Rightarrow> string" where
  "strip s = rev (dropWhile is_space (rev (dropWhile is_space s)))"

definition digit_val :: "char \<Rightarrow> nat option" where
  "digit_val c =
     map_of [(CHR ''0'', 0), (CHR ''1'', 1), (CHR ''2'', 2), (CHR ''3'', 3), (CHR ''4'', 4),
             (CHR ''5'', 5), (CHR ''6'', 6), (CHR ''7'', 7), (CHR ''8'', 8), (CHR ''9'', 9)] c"

text \<open>
  \<open>digits acc prev s\<close>: \<open>acc\<close> is the value read so far, \<open>prev\<close> says that the last
  character read was a digit (an underscore is legal only then, and the literal must end
  on a digit).
\<close>

fun digits :: "nat \<Rightarrow> bool \<Rightarrow> string \<Rightarrow> nat option" where
  "digits acc prev [] = (if prev then Some acc else None)"
| "digits acc prev (c # cs) =
     (if c = CHR ''_'' then (if prev then digits acc False cs else None)
      else (case digit_val c of
              None \<Rightarrow> None
            | Some d \<Rightarrow> digits (10 * acc + d) True cs))"

definition py_int :: "string \<Rightarrow> int option" where
  "py_int s =
     (case strip s of
        [] \<Rightarrow> None
      | c # cs \<Rightarrow>
          if c = CHR ''-'' then map_option (\<lambda>n. - int n) (digits 0 False cs)
          else if c = CHR ''+'' then map_option int (digits 0 False cs)
          else map_option int (digits 0 False (c # cs)))"

text \<open>
  The slice \<^verbatim>\<open>xs[h:]\<close>: a negative start counts from the end, and the start is clamped
  to the range \<open>0 .. len(xs)\<close>, so the slice never raises.
\<close>

definition py_slice_from :: "'a list \<Rightarrow> int \<Rightarrow> 'a list" where
  "py_slice_from xs h =
     (let n = int (length xs);
          start = (if h < 0 then max (n + h) 0 else min h n)
      in drop (nat start) xs)"

subsection \<open>The loop\<close>

text \<open>
  One iteration. \<^verbatim>\<open>and\<close> evaluates its right operand only when the left one is true,
  so \<open>src\<close> is read only on a packet whose transfer type is \<^verbatim>\<open>"0x00"\<close>.
\<close>

definition body :: "sinks \<Rightarrow> packet \<Rightarrow> error + sinks" where
  "body s packet =
     (case usb packet of
        None \<Rightarrow> Inl AttributeError
      | Some u \<Rightarrow>
          (case transfer_type u of
             None \<Rightarrow> Inl AttributeError
           | Some tt \<Rightarrow>
               if tt = ''0x00'' then
                 (case src u of
                    None \<Rightarrow> Inl AttributeError
                  | Some sr \<Rightarrow>
                      if sr = ''host'' then
                        (case usbpcap_header_len u of
                           None \<Rightarrow> Inl AttributeError
                         | Some hl \<Rightarrow>
                             (case py_int hl of
                                None \<Rightarrow> Inl ValueError
                              | Some header_len \<Rightarrow>
                                  let data = py_slice_from (get_raw_packet packet) header_len
                                  in Inr \<lparr>written = written s @ data,
                                          printed = printed s @ [length data]\<rparr>))
                      else Inr s)
               else Inr s))"

text \<open>
  The \<^verbatim>\<open>for\<close> loop: an exception leaves the loop with what has been written so far.
\<close>

fun loop :: "sinks \<Rightarrow> packet list \<Rightarrow> error option \<times> sinks" where
  "loop s [] = (None, s)"
| "loop s (packet # cap) =
     (case body s packet of
        Inl e \<Rightarrow> (Some e, s)
      | Inr s' \<Rightarrow> loop s' cap)"

text \<open>
  The script with the output path as a parameter: mode \<^verbatim>\<open>"wb"\<close> creates the file or
  truncates it, and leaving the \<^verbatim>\<open>with\<close> block closes it, also when the loop raised.
  The result is the exception that ended the run, if any, and the world after it.
\<close>

definition run :: "string \<Rightarrow> world \<Rightarrow> packet list \<Rightarrow> error option \<times> world" where
  "run outputPath w cap =
     (case loop \<lparr>written = [], printed = stdout w\<rparr> cap of
        (e, s) \<Rightarrow> (e, \<lparr>files = (files w)(outputPath \<mapsto> written s), stdout = printed s\<rparr>))"

definition main :: "world \<Rightarrow> packet list \<Rightarrow> error option \<times> world" where
  "main = run ''out.raw''"

subsection \<open>The vocabulary of the specification\<close>

text \<open>The filter predicate: the condition of the \<^verbatim>\<open>if\<close>, on a packet that has the fields.\<close>

definition matches :: "packet \<Rightarrow> bool" where
  "matches p =
     (case usb p of
        None \<Rightarrow> False
      | Some u \<Rightarrow> transfer_type u = Some ''0x00'' \<and> src u = Some ''host'')"

text \<open>The header length of a packet, where it has one that reads as an integer.\<close>

definition header_len :: "packet \<Rightarrow> int option" where
  "header_len p =
     (case usb p of
        None \<Rightarrow> None
      | Some u \<Rightarrow> (case usbpcap_header_len u of None \<Rightarrow> None | Some hl \<Rightarrow> py_int hl))"

text \<open>The payload \<^verbatim>\<open>rawFrame[headerLen:]\<close> of a packet.\<close>

definition payload :: "packet \<Rightarrow> byte list" where
  "payload p =
     (case header_len p of
        None \<Rightarrow> []
      | Some h \<Rightarrow> py_slice_from (get_raw_packet p) h)"

text \<open>The ordered concatenation of the payloads of the matching packets.\<close>

definition expected_output :: "packet list \<Rightarrow> byte list" where
  "expected_output cap = concat (map payload (filter matches cap))"

definition expected_lengths :: "packet list \<Rightarrow> nat list" where
  "expected_lengths cap = map (\<lambda>p. length (payload p)) (filter matches cap)"

text \<open>
  The exception an iteration on a packet raises, if any: \<^verbatim>\<open>AttributeError\<close> for a
  missing layer or field that the iteration reads, \<^verbatim>\<open>ValueError\<close> for a header length
  that is not an integer literal. It does not depend on what has been written before.
\<close>

definition raises :: "packet \<Rightarrow> error option" where
  "raises p =
     (case body \<lparr>written = [], printed = []\<rparr> p of
        Inl e \<Rightarrow> Some e
      | Inr s \<Rightarrow> None)"

text \<open>
  The packets the loop gets through: those before the first one whose iteration raises
  (all of them when none does), and the exception that ends the loop, if any.
\<close>

definition processed :: "packet list \<Rightarrow> packet list" where
  "processed cap = takeWhile (\<lambda>p. raises p = None) cap"

definition first_raised :: "packet list \<Rightarrow> error option" where
  "first_raised cap =
     (case dropWhile (\<lambda>p. raises p = None) cap of
        [] \<Rightarrow> None
      | p # rest \<Rightarrow> raises p)"

subsection \<open>Example packets\<close>

text \<open>A packet whose USB layer has the three fields, and a packet with no USB layer.\<close>

definition usb_packet :: "string \<Rightarrow> string \<Rightarrow> string \<Rightarrow> byte list \<Rightarrow> packet" where
  "usb_packet tt sr hl raw =
     \<lparr>usb = Some \<lparr>transfer_type = Some tt, src = Some sr, usbpcap_header_len = Some hl\<rparr>,
      get_raw_packet = raw\<rparr>"

definition non_usb_packet :: "byte list \<Rightarrow> packet" where
  "non_usb_packet raw = \<lparr>usb = None, get_raw_packet = raw\<rparr>"

definition empty_world :: world where
  "empty_world = \<lparr>files = Map.empty, stdout = []\<rparr>"

section \<open>Properties of one iteration and of the loop\<close>

lemma body_raises:
  "raises p = Some e \<Longrightarrow> body s p = Inl e"
  by (auto simp: raises_def body_def Let_def split: option.splits if_splits)

lemma body_skips:
  "raises p = None \<Longrightarrow> \<not> matches p \<Longrightarrow> body s p = Inr s"
  by (auto simp: raises_def body_def matches_def Let_def split: option.splits if_splits)

lemma body_writes:
  "raises p = None \<Longrightarrow> matches p \<Longrightarrow>
   body s p = Inr \<lparr>written = written s @ payload p,
                   printed = printed s @ [length (payload p)]\<rparr>"
  by (auto simp: raises_def body_def matches_def payload_def header_len_def Let_def
      split: option.splits if_splits)

lemma body_no_match:
  "\<not> matches p \<Longrightarrow> body s p = Inr s \<or> body s p = Inl AttributeError"
  by (auto simp: body_def matches_def split: option.splits)

lemma expected_output_Cons:
  "expected_output (p # cap) = (if matches p then payload p else []) @ expected_output cap"
  by (simp add: expected_output_def)

lemma expected_lengths_Cons:
  "expected_lengths (p # cap) =
     (if matches p then [length (payload p)] else []) @ expected_lengths cap"
  by (simp add: expected_lengths_def)

lemma loop_append:
  "loop s (xs @ ys) =
     (case loop s xs of (None, s') \<Rightarrow> loop s' ys | (Some e, s') \<Rightarrow> (Some e, s'))"
  by (induction xs arbitrary: s) (auto split: sum.splits)

lemma loop_completes:
  "\<forall>p\<in>set cap. raises p = None \<Longrightarrow>
   loop s cap = (None, \<lparr>written = written s @ expected_output cap,
                        printed = printed s @ expected_lengths cap\<rparr>)"
proof (induction cap arbitrary: s)
  case Nil
  show ?case by (simp add: expected_output_def expected_lengths_def)
next
  case (Cons p cap)
  have ok: "raises p = None" and rest: "\<forall>q\<in>set cap. raises q = None"
    using Cons.prems by simp_all
  show ?case
  proof (cases "matches p")
    case True
    then show ?thesis
      using body_writes [OF ok True, of s] Cons.IH [OF rest]
      by (simp add: expected_output_Cons expected_lengths_Cons)
  next
    case False
    then show ?thesis
      using body_skips [OF ok False, of s] Cons.IH [OF rest]
      by (simp add: expected_output_Cons expected_lengths_Cons)
  qed
qed

lemma loop_raises_at:
  assumes "\<forall>q\<in>set pre. raises q = None" and "raises p = Some e"
  shows "loop s (pre @ p # rest) =
           (Some e, \<lparr>written = written s @ expected_output pre,
                      printed = printed s @ expected_lengths pre\<rparr>)"
  using loop_completes [OF assms(1), of s] body_raises [OF assms(2)]
  by (simp add: loop_append)

lemma loop_skips_at:
  assumes "raises p = None" and "\<not> matches p"
  shows "loop s (pre @ p # post) = loop s (pre @ post)"
  using body_skips [OF assms]
  by (simp add: loop_append split: prod.splits option.splits)

lemma loop_no_match:
  "\<forall>p\<in>set cap. \<not> matches p \<Longrightarrow> snd (loop s cap) = s"
proof (induction cap arbitrary: s)
  case Nil
  show ?case by simp
next
  case (Cons p cap)
  then have "\<not> matches p" by simp
  from body_no_match [OF this, of s] Cons show ?case by auto
qed

lemma run_completes:
  "\<forall>p\<in>set cap. raises p = None \<Longrightarrow>
   run outputPath w cap =
     (None, \<lparr>files = (files w)(outputPath \<mapsto> expected_output cap),
              stdout = stdout w @ expected_lengths cap\<rparr>)"
  by (simp add: run_def loop_completes)

lemma run_raises_at:
  assumes "\<forall>q\<in>set pre. raises q = None" and "raises p = Some e"
  shows "run outputPath w (pre @ p # rest) =
           (Some e, \<lparr>files = (files w)(outputPath \<mapsto> expected_output pre),
                      stdout = stdout w @ expected_lengths pre\<rparr>)"
  by (simp add: run_def loop_raises_at [OF assms])

text \<open>Evaluating the builtins and the vocabulary on the example packets.\<close>

lemma py_int_examples:
  "py_int ''0'' = Some 0"
  "py_int ''4'' = Some 4"
  "py_int ''27'' = Some 27"
  "py_int ''-5'' = Some (- 5)"
  "py_int ''-1'' = Some (- 1)"
  "py_int '' 1_0 '' = Some 10"
  "py_int ''0x1b'' = None"
  "py_int ''abc'' = None"
  "py_int [] = None"
  by (simp_all add: py_int_def strip_def is_space_def digit_val_def)

lemma usb_packet_simps:
  "usb (usb_packet tt sr hl raw) =
     Some \<lparr>transfer_type = Some tt, src = Some sr, usbpcap_header_len = Some hl\<rparr>"
  "get_raw_packet (usb_packet tt sr hl raw) = raw"
  "matches (usb_packet tt sr hl raw) = (tt = ''0x00'' \<and> sr = ''host'')"
  "header_len (usb_packet tt sr hl raw) = py_int hl"
  "raises (usb_packet tt sr hl raw) =
     (if tt = ''0x00'' \<and> sr = ''host'' \<and> py_int hl = None then Some ValueError else None)"
  by (auto simp: usb_packet_def matches_def header_len_def raises_def body_def Let_def
      split: option.splits)

lemma non_usb_packet_simps:
  "usb (non_usb_packet raw) = None"
  "get_raw_packet (non_usb_packet raw) = raw"
  "matches (non_usb_packet raw) = False"
  "raises (non_usb_packet raw) = Some AttributeError"
  by (simp_all add: non_usb_packet_def matches_def raises_def body_def)

subsection \<open>When an iteration raises\<close>

lemma raises_None_iff:
  "raises p = None \<longleftrightarrow>
     (\<exists>u tt. usb p = Some u \<and> transfer_type u = Some tt \<and>
        (tt = ''0x00'' \<longrightarrow>
           (\<exists>sr. src u = Some sr \<and>
              (sr = ''host'' \<longrightarrow>
                 (\<exists>hl h. usbpcap_header_len u = Some hl \<and> py_int hl = Some h)))))"
  by (auto simp: raises_def body_def Let_def split: option.splits)

lemma raises_no_usb: "usb p = None \<Longrightarrow> raises p = Some AttributeError"
  by (simp add: raises_def body_def)

lemma raises_bad_header_len:
  "matches p \<Longrightarrow> usb p = Some u \<Longrightarrow> usbpcap_header_len u = Some hl \<Longrightarrow>
   py_int hl = None \<Longrightarrow> raises p = Some ValueError"
  by (simp add: raises_def body_def matches_def)

lemma matching_raises_None:
  "matches p \<Longrightarrow> header_len p = Some h \<Longrightarrow> raises p = None"
  by (auto simp: raises_def body_def Let_def matches_def header_len_def split: option.splits)

lemma raises_skipped:
  "usb p = Some u \<Longrightarrow> transfer_type u = Some tt \<Longrightarrow>
   tt \<noteq> ''0x00'' \<or> (\<exists>sr. src u = Some sr \<and> sr \<noteq> ''host'') \<Longrightarrow>
   raises p = None \<and> \<not> matches p"
  by (auto simp: raises_def body_def matches_def split: option.splits)

subsection \<open>The slice\<close>

lemma py_slice_from_nonneg: "0 \<le> h \<Longrightarrow> py_slice_from xs h = drop (nat h) xs"
  by (auto simp: py_slice_from_def Let_def min_def)

lemma py_slice_from_neg:
  "h < 0 \<Longrightarrow> py_slice_from xs h = drop (length xs - min (nat (- h)) (length xs)) xs"
  by (auto simp: py_slice_from_def Let_def max_def min_def nat_diff_distrib'
      intro!: arg_cong2 [where f = drop])

lemma take_drop_suffix: "take (length xs - length (drop k xs)) xs @ drop k xs = xs"
proof (cases "k \<le> length xs")
  case True
  then show ?thesis by simp
next
  case False
  then show ?thesis by simp
qed

lemma py_slice_from_suffix:
  "take (length xs - length (py_slice_from xs h)) xs @ py_slice_from xs h = xs"
  unfolding py_slice_from_def Let_def by (rule take_drop_suffix)

subsection \<open>The run on any capture\<close>

lemma loop_general:
  "loop s cap =
     (first_raised cap,
      \<lparr>written = written s @ expected_output (processed cap),
       printed = printed s @ expected_lengths (processed cap)\<rparr>)"
proof (cases "dropWhile (\<lambda>p. raises p = None) cap")
  case Nil
  then have all: "\<forall>p\<in>set cap. raises p = None"
    by (simp add: dropWhile_eq_Nil_conv)
  then have "processed cap = cap"
    by (simp add: processed_def takeWhile_eq_all_conv)
  moreover have "first_raised cap = None"
    unfolding first_raised_def Nil by simp
  ultimately show ?thesis
    using loop_completes [OF all, of s] by simp
next
  case (Cons p rest)
  have split: "cap = processed cap @ p # rest"
    using takeWhile_dropWhile_id [of "\<lambda>p. raises p = None" cap] Cons
    by (simp add: processed_def)
  have pre: "\<forall>q\<in>set (processed cap). raises q = None"
    by (auto simp: processed_def dest: set_takeWhileD)
  have "raises p \<noteq> None"
    using hd_dropWhile [of "\<lambda>p. raises p = None" cap] Cons by auto
  then obtain e where e: "raises p = Some e" by auto
  have "loop s (processed cap @ p # rest) =
          (Some e, \<lparr>written = written s @ expected_output (processed cap),
                     printed = printed s @ expected_lengths (processed cap)\<rparr>)"
    by (rule loop_raises_at [OF pre e])
  with split e Cons show ?thesis
    by (simp add: first_raised_def)
qed

lemma run_general:
  "run outputPath w cap =
     (first_raised cap,
      \<lparr>files = (files w)(outputPath \<mapsto> expected_output (processed cap)),
       stdout = stdout w @ expected_lengths (processed cap)\<rparr>)"
  by (simp add: run_def loop_general)

lemma run_completes_iff:
  "fst (run outputPath w cap) = None \<longleftrightarrow> (\<forall>p\<in>set cap. raises p = None)"
proof -
  have "first_raised cap = None \<longleftrightarrow> dropWhile (\<lambda>p. raises p = None) cap = []"
  proof (cases "dropWhile (\<lambda>p. raises p = None) cap")
    case Nil
    show ?thesis unfolding first_raised_def Nil by simp
  next
    case (Cons p rest)
    then have "raises p \<noteq> None"
      using hd_dropWhile [of "\<lambda>p. raises p = None" cap] by auto
    then show ?thesis unfolding first_raised_def Cons by simp
  qed
  then show ?thesis
    by (simp add: run_general dropWhile_eq_Nil_conv)
qed

section \<open>The claims\<close>

subsection \<open>C1: the output is the ordered concatenation of the payload slices\<close>

text \<open>
  Claim C1 says that for every capture the output file holds the ordered concatenation,
  over the records passing the filter, of \<^verbatim>\<open>rawFrame[headerLen:]\<close>. That fails on a
  capture with a packet that has no USB layer in front of a matching packet: the
  iteration on the first packet raises \<^verbatim>\<open>AttributeError\<close>, the run ends there, and the
  file stays empty although the concatenation over the matching records is \<open>[1, 2]\<close>.
\<close>

theorem C1_counterexample:
  "expected_output [non_usb_packet [9], usb_packet ''0x00'' ''host'' ''0'' [1, 2]] = [1, 2] \<and>
   run ''out.raw'' empty_world [non_usb_packet [9], usb_packet ''0x00'' ''host'' ''0'' [1, 2]] =
     (Some AttributeError, \<lparr>files = [''out.raw'' \<mapsto> []], stdout = []\<rparr>)"
  by (simp add: expected_output_def usb_packet_simps non_usb_packet_simps payload_def
      py_int_examples py_slice_from_def run_def body_def empty_world_def)

text \<open>
  Claim C1, amended: for every capture on which no iteration raises (every record has the
  USB layer with a transfer type, a source when the transfer type is \<^verbatim>\<open>"0x00"\<close>, and a
  header length that reads as an integer when the record matches; see
  \<open>raises_None_iff\<close>), the run completes, and the output file holds exactly the
  concatenation, in capture order, of \<^verbatim>\<open>rawFrame[headerLen:]\<close> over the matching records;
  one length is printed per matching record.
\<close>

theorem C1_run_output:
  assumes "\<forall>p\<in>set cap. raises p = None"
  shows "run outputPath w cap =
           (None,
            \<lparr>files = (files w)(outputPath \<mapsto> concat (map payload (filter matches cap))),
             stdout = stdout w @ map (\<lambda>p. length (payload p)) (filter matches cap)\<rparr>)"
  using run_completes [OF assms, of outputPath w]
  by (simp add: expected_output_def expected_lengths_def)

theorem C1_run_output_witness:
  "run ''out.raw'' empty_world
     [usb_packet ''0x00'' ''host'' ''0'' [1, 2], usb_packet ''0x01'' ''host'' ''0'' [3],
      usb_packet ''0x00'' ''host'' ''4'' [4, 5, 6, 7, 8, 9]] =
   (None, \<lparr>files = [''out.raw'' \<mapsto> [1, 2, 8, 9]], stdout = [2, 2]\<rparr>)"
  using C1_run_output [of
      "[usb_packet ''0x00'' ''host'' ''0'' [1, 2], usb_packet ''0x01'' ''host'' ''0'' [3],
        usb_packet ''0x00'' ''host'' ''4'' [4, 5, 6, 7, 8, 9]]" "''out.raw''" empty_world]
  by (simp add: usb_packet_simps py_int_examples payload_def py_slice_from_def empty_world_def)

subsection \<open>C2: a record without the USB layer\<close>

text \<open>
  Claim C2 says that a record lacking the USB protocol view is skipped without an error
  and the run goes on. The script reads \<^verbatim>\<open>packet.usb\<close> unguarded, so the iteration raises
  \<^verbatim>\<open>AttributeError\<close> and the script ends with it.
\<close>

theorem C2_counterexample:
  "usb (non_usb_packet [7, 7]) = None \<and>
   body \<lparr>written = [], printed = []\<rparr> (non_usb_packet [7, 7]) = Inl AttributeError \<and>
   main empty_world [non_usb_packet [7, 7]] =
     (Some AttributeError, \<lparr>files = [''out.raw'' \<mapsto> []], stdout = []\<rparr>)"
  by (simp add: non_usb_packet_def main_def run_def body_def empty_world_def)

text \<open>
  Claim C2, amended: on a record that lacks the USB layer the iteration raises
  \<^verbatim>\<open>AttributeError\<close>; when no earlier iteration raised, the run ends at that record with
  this exception, the output file holds the payloads of the matching records before it,
  and no later record is read.
\<close>

theorem C2_missing_usb_view_aborts:
  assumes "usb p = None" and "\<forall>q\<in>set pre. raises q = None"
  shows "body s p = Inl AttributeError \<and>
         run outputPath w (pre @ p # rest) =
           (Some AttributeError,
            \<lparr>files = (files w)(outputPath \<mapsto> concat (map payload (filter matches pre))),
             stdout = stdout w @ map (\<lambda>q. length (payload q)) (filter matches pre)\<rparr>)"
  using run_raises_at [OF assms(2) raises_no_usb [OF assms(1)], of outputPath w rest]
    body_raises [OF raises_no_usb [OF assms(1)], of s]
  by (simp add: expected_output_def expected_lengths_def)

theorem C2_missing_usb_view_aborts_witness:
  "body \<lparr>written = [], printed = []\<rparr> (non_usb_packet [7, 7]) = Inl AttributeError \<and>
   run ''out.raw'' empty_world
     [usb_packet ''0x00'' ''host'' ''0'' [1], non_usb_packet [7, 7],
      usb_packet ''0x00'' ''host'' ''0'' [2]] =
   (Some AttributeError, \<lparr>files = [''out.raw'' \<mapsto> [1]], stdout = [1]\<rparr>)"
  using C2_missing_usb_view_aborts [of "non_usb_packet [7, 7]"
      "[usb_packet ''0x00'' ''host'' ''0'' [1]]" "\<lparr>written = [], printed = []\<rparr>"
      "''out.raw''" empty_world "[usb_packet ''0x00'' ''host'' ''0'' [2]]"]
  by (simp add: usb_packet_simps non_usb_packet_simps py_int_examples payload_def
      py_slice_from_def empty_world_def)

subsection \<open>C3: a header length beyond the frame\<close>

text \<open>
  Claim C3: on a matching record with a header length \<open>h \<ge> 0\<close> the iteration does not
  raise and writes the frame from offset \<open>h\<close> on; when \<open>h\<close> reaches or exceeds the length
  of the frame, the payload is empty, nothing is added to the file and the length \<open>0\<close>
  is printed.
\<close>

theorem C3_header_len_beyond_frame:
  assumes "matches p" and "header_len p = Some h" and "0 \<le> h"
  shows "body s p =
           Inr \<lparr>written = written s @ drop (nat h) (get_raw_packet p),
                printed = printed s @ [length (get_raw_packet p) - nat h]\<rparr> \<and>
         (int (length (get_raw_packet p)) \<le> h \<longrightarrow>
            py_slice_from (get_raw_packet p) h = [] \<and>
            body s p = Inr \<lparr>written = written s, printed = printed s @ [0]\<rparr>)"
  using body_writes [OF matching_raises_None [OF assms(1,2)] assms(1), of s] assms(2,3)
  by (auto simp: payload_def py_slice_from_nonneg)

theorem C3_header_len_beyond_frame_witness:
  "py_slice_from [1, 2, 3 :: byte] 27 = [] \<and>
   body \<lparr>written = [5], printed = [1]\<rparr> (usb_packet ''0x00'' ''host'' ''27'' [1, 2, 3]) =
     Inr \<lparr>written = [5], printed = [1, 0]\<rparr>"
  using C3_header_len_beyond_frame [of "usb_packet ''0x00'' ''host'' ''27'' [1, 2, 3]" 27
      "\<lparr>written = [5], printed = [1]\<rparr>"]
  by (simp add: usb_packet_simps py_int_examples)

subsection \<open>C4: a record that fails the filter\<close>

text \<open>
  Claim C4: a record whose transfer type is not \<^verbatim>\<open>"0x00"\<close>, or whose source is not
  \<^verbatim>\<open>"host"\<close>, leaves the file and standard output as they were, and the run on a capture
  with that record is the run on the capture without it: none of its bytes reach the
  output.
\<close>

theorem C4_non_matching_skipped:
  assumes "usb p = Some u" and "transfer_type u = Some tt"
    and "tt \<noteq> ''0x00'' \<or> (\<exists>sr. src u = Some sr \<and> sr \<noteq> ''host'')"
  shows "body s p = Inr s \<and>
         run outputPath w (pre @ p # post) = run outputPath w (pre @ post)"
proof -
  from raises_skipped [OF assms] have ok: "raises p = None" and no: "\<not> matches p"
    by simp_all
  show ?thesis
    using body_skips [OF ok no, of s] loop_skips_at [OF ok no]
    by (simp add: run_def)
qed

theorem C4_non_matching_skipped_witness:
  "body \<lparr>written = [5], printed = [1]\<rparr> (usb_packet ''0x00'' ''device'' ''0'' [8, 9]) =
     Inr \<lparr>written = [5], printed = [1]\<rparr> \<and>
   run ''out.raw'' empty_world
     [usb_packet ''0x00'' ''host'' ''0'' [1], usb_packet ''0x00'' ''device'' ''0'' [8, 9],
      usb_packet ''0x00'' ''host'' ''0'' [2]] =
   run ''out.raw'' empty_world
     [usb_packet ''0x00'' ''host'' ''0'' [1], usb_packet ''0x00'' ''host'' ''0'' [2]]"
  using C4_non_matching_skipped [of "usb_packet ''0x00'' ''device'' ''0'' [8, 9]"
      "\<lparr>transfer_type = Some ''0x00'', src = Some ''device'', usbpcap_header_len = Some ''0''\<rparr>"
      "''0x00''" "\<lparr>written = [5], printed = [1]\<rparr>" "''out.raw''" empty_world
      "[usb_packet ''0x00'' ''host'' ''0'' [1]]" "[usb_packet ''0x00'' ''host'' ''0'' [2]]"]
  by (simp add: usb_packet_simps)

subsection \<open>C5: capture order is write order\<close>

text \<open>
  Claim C5 says that matching records are written in capture order, once each, and that
  no record is left out except by the filter. The last part fails when an iteration
  raises: here the second record passes the filter but its header length is not an
  integer, the run ends there with \<^verbatim>\<open>ValueError\<close>, and neither that record nor the
  third one, which matches and has payload \<open>[2]\<close>, reaches the file.
\<close>

theorem C5_counterexample:
  "matches (usb_packet ''0x00'' ''host'' ''abc'' [7]) \<and>
   matches (usb_packet ''0x00'' ''host'' ''0'' [2]) \<and>
   payload (usb_packet ''0x00'' ''host'' ''0'' [2]) = [2] \<and>
   run ''out.raw'' empty_world
     [usb_packet ''0x00'' ''host'' ''0'' [1], usb_packet ''0x00'' ''host'' ''abc'' [7],
      usb_packet ''0x00'' ''host'' ''0'' [2]] =
   (Some ValueError, \<lparr>files = [''out.raw'' \<mapsto> [1]], stdout = [1]\<rparr>)"
  by (simp add: usb_packet_simps payload_def py_int_examples py_slice_from_def run_def
      body_def empty_world_def)

text \<open>
  Claim C5, amended: on every capture the output file holds, in capture order and once
  each, the payloads of exactly the matching records among those before the first record
  whose iteration raises. So on a capture where no iteration raises, for matching records
  \<open>A\<close> before \<open>B\<close> the payload of \<open>A\<close> lies entirely before the payload of \<open>B\<close>, each
  is written once, and only the filter leaves a record out.
\<close>

theorem C5_capture_order_kept:
  "files (snd (run outputPath w cap)) outputPath =
     Some (concat (map payload (filter matches (processed cap)))) \<and>
   ((\<forall>p\<in>set (xs @ A # ys @ B # zs). raises p = None) \<and> matches A \<and> matches B \<longrightarrow>
      run outputPath w (xs @ A # ys @ B # zs) =
        (None,
         \<lparr>files = (files w)(outputPath \<mapsto>
            expected_output xs @ payload A @ expected_output ys @ payload B @ expected_output zs),
          stdout = stdout w @ expected_lengths (xs @ A # ys @ B # zs)\<rparr>))"
proof (intro conjI impI)
  show "files (snd (run outputPath w cap)) outputPath =
          Some (concat (map payload (filter matches (processed cap))))"
    by (simp add: run_general expected_output_def)
next
  assume h: "(\<forall>p\<in>set (xs @ A # ys @ B # zs). raises p = None) \<and> matches A \<and> matches B"
  then have all: "\<forall>p\<in>set (xs @ A # ys @ B # zs). raises p = None"
    and A: "matches A" and B: "matches B"
    by blast+
  have "expected_output (xs @ A # ys @ B # zs) =
          expected_output xs @ payload A @ expected_output ys @ payload B @ expected_output zs"
    using A B by (simp add: expected_output_def)
  with run_completes [OF all, of outputPath w]
  show "run outputPath w (xs @ A # ys @ B # zs) =
        (None,
         \<lparr>files = (files w)(outputPath \<mapsto>
            expected_output xs @ payload A @ expected_output ys @ payload B @ expected_output zs),
          stdout = stdout w @ expected_lengths (xs @ A # ys @ B # zs)\<rparr>)"
    by simp
qed

theorem C5_capture_order_kept_witness:
  "files (snd (run ''out.raw'' empty_world
     [usb_packet ''0x00'' ''host'' ''0'' [1], non_usb_packet [7],
      usb_packet ''0x00'' ''host'' ''0'' [2]])) ''out.raw'' = Some [1] \<and>
   run ''out.raw'' empty_world
     [usb_packet ''0x01'' ''host'' ''0'' [9], usb_packet ''0x00'' ''host'' ''0'' [1, 2],
      usb_packet ''0x00'' ''device'' ''0'' [9], usb_packet ''0x00'' ''host'' ''4'' [3, 4, 5, 6, 7]] =
   (None, \<lparr>files = [''out.raw'' \<mapsto> [1, 2, 7]], stdout = [2, 1]\<rparr>)"
  using C5_capture_order_kept [of "''out.raw''" empty_world
      "[usb_packet ''0x00'' ''host'' ''0'' [1], non_usb_packet [7],
        usb_packet ''0x00'' ''host'' ''0'' [2]]"
      "[usb_packet ''0x01'' ''host'' ''0'' [9]]" "usb_packet ''0x00'' ''host'' ''0'' [1, 2]"
      "[usb_packet ''0x00'' ''device'' ''0'' [9]]"
      "usb_packet ''0x00'' ''host'' ''4'' [3, 4, 5, 6, 7]" "[]"]
  by (simp add: processed_def usb_packet_simps non_usb_packet_simps py_int_examples
      payload_def py_slice_from_def expected_output_def expected_lengths_def empty_world_def)

subsection \<open>C6: no matching record\<close>

text \<open>
  Claim C6: when no record of the capture matches, the output file exists after the run
  and is empty, whatever it held before and whether or not an iteration raised; nothing
  is printed.
\<close>

theorem C6_no_matching_record_empty_file:
  assumes "\<forall>p\<in>set cap. \<not> matches p"
  shows "files (snd (run outputPath w cap)) outputPath = Some [] \<and>
         stdout (snd (run outputPath w cap)) = stdout w"
  using loop_no_match [OF assms, of "\<lparr>written = [], printed = stdout w\<rparr>"]
  by (auto simp: run_def split: prod.splits)

theorem C6_no_matching_record_empty_file_witness:
  "files (snd (run ''out.raw'' \<lparr>files = [''out.raw'' \<mapsto> [1, 2, 3]], stdout = []\<rparr>
     [usb_packet ''0x01'' ''host'' ''4'' [1, 2], usb_packet ''0x00'' ''device'' ''4'' [3]]))
     ''out.raw'' = Some [] \<and>
   files (snd (run ''out.raw'' empty_world [])) ''out.raw'' = Some []"
  using C6_no_matching_record_empty_file [of
      "[usb_packet ''0x01'' ''host'' ''4'' [1, 2], usb_packet ''0x00'' ''device'' ''4'' [3]]"
      "''out.raw''" "\<lparr>files = [''out.raw'' \<mapsto> [1, 2, 3]], stdout = []\<rparr>"]
    C6_no_matching_record_empty_file [of "[]" "''out.raw''" empty_world]
  by (simp add: usb_packet_simps)

subsection \<open>C7: the output is a function of the record sequence\<close>

text \<open>
  Claim C7: running the script on a capture to one path and then again on the same
  capture to a different path leaves two files with the same bytes, the second run ends
  as the first did, and the bytes do not depend on the files that were there before.
\<close>

theorem C7_output_determined_by_capture:
  assumes "o1 \<noteq> o2"
  shows "files (snd (run o2 (snd (run o1 w cap)) cap)) o2 =
           files (snd (run o2 (snd (run o1 w cap)) cap)) o1 \<and>
         fst (run o2 (snd (run o1 w cap)) cap) = fst (run o1 w cap) \<and>
         files (snd (run o1 w cap)) o1 = files (snd (run o1 w' cap)) o1"
  using assms by (simp add: run_general)

theorem C7_output_determined_by_capture_witness:
  "files (snd (run ''b.raw'' (snd (run ''a.raw'' empty_world
      [usb_packet ''0x00'' ''host'' ''0'' [1, 2]])) [usb_packet ''0x00'' ''host'' ''0'' [1, 2]]))
     ''b.raw'' = Some [1, 2] \<and>
   files (snd (run ''b.raw'' (snd (run ''a.raw'' empty_world
      [usb_packet ''0x00'' ''host'' ''0'' [1, 2]])) [usb_packet ''0x00'' ''host'' ''0'' [1, 2]]))
     ''a.raw'' = Some [1, 2]"
  using C7_output_determined_by_capture [of "''a.raw''" "''b.raw''" empty_world
      "[usb_packet ''0x00'' ''host'' ''0'' [1, 2]]" empty_world]
  by (simp add: run_def body_def usb_packet_def py_int_examples py_slice_from_def empty_world_def)

subsection \<open>C8: the scenario of three records\<close>

text \<open>
  Claim C8: on a capture of three records, the first with transfer type \<^verbatim>\<open>"0x01"\<close>, the
  second with transfer type \<^verbatim>\<open>"0x00"\<close>, source \<^verbatim>\<open>"host"\<close>, header length 4 and a frame of
  8 bytes, the third with transfer type \<^verbatim>\<open>"0x00"\<close> and source \<^verbatim>\<open>"device"\<close>, the run
  completes and the output file is the 4 bytes at offsets 4 to 7 of the second frame.
\<close>

theorem C8_three_record_scenario:
  assumes "usb r1 = Some u1" and "transfer_type u1 = Some ''0x01''"
    and "usb r2 = Some u2" and "transfer_type u2 = Some ''0x00''" and "src u2 = Some ''host''"
    and "usbpcap_header_len u2 = Some hl" and "py_int hl = Some 4"
    and "length (get_raw_packet r2) = 8"
    and "usb r3 = Some u3" and "transfer_type u3 = Some ''0x00''" and "src u3 = Some ''device''"
  shows "run outputPath w [r1, r2, r3] =
           (None, \<lparr>files = (files w)(outputPath \<mapsto> drop 4 (get_raw_packet r2)),
                    stdout = stdout w @ [4]\<rparr>) \<and>
         length (drop 4 (get_raw_packet r2)) = 4 \<and>
         drop 4 (get_raw_packet r2) =
           [get_raw_packet r2 ! 4, get_raw_packet r2 ! 5, get_raw_packet r2 ! 6,
            get_raw_packet r2 ! 7]"
proof -
  obtain b0 b1 b2 b3 b4 b5 b6 b7
    where raw: "get_raw_packet r2 = [b0, b1, b2, b3, b4, b5, b6, b7]"
    using assms(8) by (auto simp: length_Suc_conv eval_nat_numeral)
  show ?thesis
    using assms(1-7,9-11)
    by (simp add: run_def body_def py_slice_from_def raw)
qed

theorem C8_three_record_scenario_witness:
  "main empty_world
     [usb_packet ''0x01'' ''host'' ''27'' [1, 2, 3],
      usb_packet ''0x00'' ''host'' ''4'' [10, 11, 12, 13, 14, 15, 16, 17],
      usb_packet ''0x00'' ''device'' ''27'' [4, 5]] =
   (None, \<lparr>files = [''out.raw'' \<mapsto> [14, 15, 16, 17]], stdout = [4]\<rparr>)"
  using C8_three_record_scenario [of "usb_packet ''0x01'' ''host'' ''27'' [1, 2, 3]"
      "\<lparr>transfer_type = Some ''0x01'', src = Some ''host'', usbpcap_header_len = Some ''27''\<rparr>"
      "usb_packet ''0x00'' ''host'' ''4'' [10, 11, 12, 13, 14, 15, 16, 17]"
      "\<lparr>transfer_type = Some ''0x00'', src = Some ''host'', usbpcap_header_len = Some ''4''\<rparr>"
      "''4''"
      "usb_packet ''0x00'' ''device'' ''27'' [4, 5]"
      "\<lparr>transfer_type = Some ''0x00'', src = Some ''device'', usbpcap_header_len = Some ''27''\<rparr>"
      "''out.raw''" empty_world]
  by (simp add: main_def usb_packet_simps py_int_examples empty_world_def)

subsection \<open>C9: a header length that is not an integer\<close>

text \<open>
  Claim C9: on a matching record whose header length field is a string that \<^verbatim>\<open>int\<close> does
  not accept, the iteration raises \<^verbatim>\<open>ValueError\<close> instead of skipping the record; when no
  earlier iteration raised, the run ends at that record with this exception, whatever
  follows, and the file holds what was written before.
\<close>

theorem C9_unparseable_header_len_aborts:
  assumes "matches p" and "usb p = Some u" and "usbpcap_header_len u = Some hl"
    and "py_int hl = None" and "\<forall>q\<in>set pre. raises q = None"
  shows "body s p = Inl ValueError \<and>
         run outputPath w (pre @ p # rest) =
           (Some ValueError,
            \<lparr>files = (files w)(outputPath \<mapsto> concat (map payload (filter matches pre))),
             stdout = stdout w @ map (\<lambda>q. length (payload q)) (filter matches pre)\<rparr>)"
  using run_raises_at [OF assms(5) raises_bad_header_len [OF assms(1-4)], of outputPath w rest]
    body_raises [OF raises_bad_header_len [OF assms(1-4)], of s]
  by (simp add: expected_output_def expected_lengths_def)

theorem C9_unparseable_header_len_aborts_witness:
  "py_int ''0x1b'' = None \<and>
   body \<lparr>written = [5], printed = [1]\<rparr> (usb_packet ''0x00'' ''host'' ''0x1b'' [1, 2]) =
     Inl ValueError \<and>
   run ''out.raw'' empty_world
     [usb_packet ''0x00'' ''host'' ''0'' [3], usb_packet ''0x00'' ''host'' ''0x1b'' [1, 2],
      usb_packet ''0x00'' ''host'' ''0'' [4]] =
   (Some ValueError, \<lparr>files = [''out.raw'' \<mapsto> [3]], stdout = [1]\<rparr>)"
  using C9_unparseable_header_len_aborts [of "usb_packet ''0x00'' ''host'' ''0x1b'' [1, 2]"
      "\<lparr>transfer_type = Some ''0x00'', src = Some ''host'', usbpcap_header_len = Some ''0x1b''\<rparr>"
      "''0x1b''" "[usb_packet ''0x00'' ''host'' ''0'' [3]]" "\<lparr>written = [5], printed = [1]\<rparr>"
      "''out.raw''" empty_world "[usb_packet ''0x00'' ''host'' ''0'' [4]]"]
  by (simp add: usb_packet_simps py_int_examples payload_def py_slice_from_def empty_world_def)

subsection \<open>C10: the payload is a suffix of the frame\<close>

text \<open>
  Claim C10: on a matching record with any integer header length \<open>h\<close>, the bytes appended
  to the file are a suffix of the frame. For \<open>h < 0\<close> they are the last \<open>|h|\<close> bytes of
  the frame (all of the frame when it has fewer than \<open>|h|\<close> bytes), not the bytes from
  offset \<open>h\<close> on; for \<open>h \<ge> 0\<close> they are the bytes from offset \<open>h\<close> on.
\<close>

theorem C10_payload_is_suffix:
  assumes "matches p" and "header_len p = Some h"
  shows "body s p =
           Inr \<lparr>written = written s @ py_slice_from (get_raw_packet p) h,
                printed = printed s @ [length (py_slice_from (get_raw_packet p) h)]\<rparr> \<and>
         take (length (get_raw_packet p) - length (py_slice_from (get_raw_packet p) h))
             (get_raw_packet p) @ py_slice_from (get_raw_packet p) h = get_raw_packet p \<and>
         (h < 0 \<longrightarrow>
            length (py_slice_from (get_raw_packet p) h) =
              min (nat (- h)) (length (get_raw_packet p))) \<and>
         (0 \<le> h \<longrightarrow> py_slice_from (get_raw_packet p) h = drop (nat h) (get_raw_packet p))"
proof -
  have "body s p =
          Inr \<lparr>written = written s @ py_slice_from (get_raw_packet p) h,
               printed = printed s @ [length (py_slice_from (get_raw_packet p) h)]\<rparr>"
    using body_writes [OF matching_raises_None [OF assms] assms(1), of s] assms(2)
    by (simp add: payload_def)
  moreover have "take (length (get_raw_packet p) - length (py_slice_from (get_raw_packet p) h))
             (get_raw_packet p) @ py_slice_from (get_raw_packet p) h = get_raw_packet p"
    by (rule py_slice_from_suffix)
  moreover have "h < 0 \<longrightarrow> length (py_slice_from (get_raw_packet p) h) =
              min (nat (- h)) (length (get_raw_packet p))"
    by (auto simp: py_slice_from_neg)
  moreover have "0 \<le> h \<longrightarrow> py_slice_from (get_raw_packet p) h = drop (nat h) (get_raw_packet p)"
    by (simp add: py_slice_from_nonneg)
  ultimately show ?thesis by blast
qed

theorem C10_payload_is_suffix_witness:
  "body \<lparr>written = [9], printed = []\<rparr> (usb_packet ''0x00'' ''host'' ''-1'' [1, 2, 3]) =
     Inr \<lparr>written = [9, 3], printed = [1]\<rparr> \<and>
   body \<lparr>written = [9], printed = []\<rparr> (usb_packet ''0x00'' ''host'' ''-5'' [1, 2, 3]) =
     Inr \<lparr>written = [9, 1, 2, 3], printed = [3]\<rparr> \<and>
   body \<lparr>written = [9], printed = []\<rparr> (usb_packet ''0x00'' ''host'' ''4'' [1, 2, 3]) =
     Inr \<lparr>written = [9], printed = [0]\<rparr>"
  using C10_payload_is_suffix [of "usb_packet ''0x00'' ''host'' ''-1'' [1, 2, 3]" "- 1"
      "\<lparr>written = [9], printed = []\<rparr>"]
    C10_payload_is_suffix [of "usb_packet ''0x00'' ''host'' ''-5'' [1, 2, 3]" "- 5"
      "\<lparr>written = [9], printed = []\<rparr>"]
    C10_payload_is_suffix [of "usb_packet ''0x00'' ''host'' ''4'' [1, 2, 3]" 4
      "\<lparr>written = [9], printed = []\<rparr>"]
  by (simp add: usb_packet_simps py_int_examples py_slice_from_def)

end
